theory Spec2Isabelle
  imports Main "HOL-Library.Word"
begin

unbundle bit_operations_syntax

section \<open>Semantic tokens highlighting of one buffer (handler/semanticTokensHighlights/buffer.ts)\<close>

subsection \<open>JavaScript values read by the decoder\<close>

text \<open>
  The flat token array holds unsigned integers (\<open>uinteger[]\<close>), modelled as \<open>nat\<close>.
  JavaScript adds them exactly below \<open>2^53\<close>; every position the decoder computes goes
  through \<open>Range.create\<close>, which refuses values above \<open>2^31 - 1\<close>, before it is added to
  again, so the sums of the model are those of the code for elements below \<open>2^52\<close>.
  Reading an array beyond its end gives \<open>undefined\<close>, and adding \<open>undefined\<close> to a
  number gives \<open>NaN\<close>: both are values of the model, since the decoding loop reads
  \<open>tokens[i + 1]\<close> .. \<open>tokens[i + 4]\<close> without a bound check.
\<close>

datatype jsnum = Num nat | NaN | Undefined

text \<open>\<open>tokens[i]\<close>\<close>

definition js_index :: "nat list \<Rightarrow> nat \<Rightarrow> jsnum" where
  "js_index tokens i = (if i < length tokens then Num (tokens ! i) else Undefined)"

text \<open>\<open>a + b\<close> on numbers, \<open>NaN\<close> and \<open>undefined\<close>\<close>

fun js_add :: "jsnum \<Rightarrow> jsnum \<Rightarrow> jsnum" where
  "js_add (Num a) (Num b) = Num (a + b)"
| "js_add _ _ = NaN"

text \<open>
  \<open>a <= b\<close> and \<open>a < b\<close>: false as soon as one side is \<open>NaN\<close> or \<open>undefined\<close>.
\<close>

fun js_le :: "jsnum \<Rightarrow> jsnum \<Rightarrow> bool" where
  "js_le (Num a) (Num b) = (a \<le> b)"
| "js_le _ _ = False"

fun js_lt :: "jsnum \<Rightarrow> jsnum \<Rightarrow> bool" where
  "js_lt (Num a) (Num b) = (a < b)"
| "js_lt _ _ = False"

text \<open>
  \<open>bits & (1 << m)\<close> as a condition. Both operands are converted to 32-bit integers,
  the shift count is taken modulo 32, \<open>undefined\<close> converts to 0, and the condition
  holds when the result is not 0.
\<close>

fun js_bit_test :: "jsnum \<Rightarrow> nat \<Rightarrow> bool" where
  "js_bit_test (Num bits) m = ((word_of_nat bits :: 32 word) AND push_bit (m mod 32) 1 \<noteq> 0)"
| "js_bit_test _ m = False"

text \<open>\<open>prefix + name\<close> where \<open>name\<close> is a string or \<open>undefined\<close>\<close>

fun js_concat :: "string \<Rightarrow> string option \<Rightarrow> string" where
  "js_concat prefix (Some name) = prefix @ name"
| "js_concat prefix None = prefix @ ''undefined''"

subsection \<open>Data model\<close>

definition HLGROUP_PREFIX :: string where
  "HLGROUP_PREFIX = ''CocSem_''"

definition NAMESPACE :: string where
  "NAMESPACE = ''semanticTokens''"

record SemanticTokensLegend =
  tokenTypes :: "string list"
  tokenModifiers :: "string list"

record RelativeHighlight =
  tokenType :: "string option"
  rh_tokenModifiers :: "string list"
  deltaLine :: jsnum
  deltaStartCharacter :: jsnum
  length' :: jsnum

text \<open>
  The flat token array of a previous result is a JavaScript array, shared by reference
  between the cache and the requests in flight and spliced in place when a delta arrives.
  The record holds the address of the array; the arrays themselves are in the store of
  the buffer state below.
\<close>

record SemanticTokensPreviousResult =
  version :: int
  resultId :: "string option"
  tokens :: "nat option"

text \<open>
  What the code throws: a \<open>TypeError\<close> on reading a property of \<open>null\<close> or
  \<open>undefined\<close>, and the \<open>Error\<close> of \<open>Range.create\<close> on invalid arguments.
\<close>

datatype error = TypeError | RangeCreateError

record Range =
  startLine :: jsnum
  startCharacter :: jsnum
  endLine :: jsnum
  endCharacter :: jsnum

text \<open>
  \<open>Range.create(one, two, three, four)\<close> of the protocol library, in the version that
  exports \<open>uinteger\<close> (imported at line 3): it builds the range when all four
  arguments are numbers between 0 and \<open>uinteger.MAX_VALUE\<close>, and throws otherwise
  (numbers, \<open>NaN\<close> and \<open>undefined\<close> are no positions, so its second branch does not
  apply).
\<close>

definition uinteger_MAX_VALUE :: nat where
  "uinteger_MAX_VALUE = 2147483647"

fun is_uinteger :: "jsnum \<Rightarrow> bool" where
  "is_uinteger (Num n) = (n \<le> uinteger_MAX_VALUE)"
| "is_uinteger _ = False"

definition Range_create :: "jsnum \<Rightarrow> jsnum \<Rightarrow> jsnum \<Rightarrow> jsnum \<Rightarrow> error + Range" where
  "Range_create one two three four =
     (if is_uinteger one \<and> is_uinteger two \<and> is_uinteger three \<and> is_uinteger four
      then Inr \<lparr>startLine = one, startCharacter = two, endLine = three, endCharacter = four\<rparr>
      else Inl RangeCreateError)"

text \<open>
  \<open>HighlightItemOption\<close>: \<open>combine\<close> is always written; \<open>end_incl\<close> and
  \<open>start_incl\<close> are optional properties, \<open>None\<close> when never assigned.
\<close>

record HighlightItemOption =
  combine :: bool
  end_incl :: "bool option"
  start_incl :: "bool option"

record HighlightItem =
  hlGroup :: string
  range :: Range
  opts :: HighlightItemOption

text \<open>
  Modelled from the spec: \<open>doc.addHighlights(res, hlGroup, range, opts)\<close> is a method of
  the document model, whose source is not part of the file under study. The spec gives
  the highlight item as \<open>{group, range, options}\<close> and has the decoder emit one item per
  quintuple, so the helper is modelled as pushing that one item onto the target list.
\<close>

definition addHighlights ::
  "HighlightItem list \<Rightarrow> string \<Rightarrow> Range \<Rightarrow> HighlightItemOption \<Rightarrow> HighlightItem list" where
  "addHighlights res g r opt = res @ [\<lparr>hlGroup = g, range = r, opts = opt\<rparr>]"

subsection \<open>Token decoder: the two loops of \<open>requestHighlights\<close>\<close>

text \<open>\<open>legend.tokenTypes[tokenType]\<close>: \<open>undefined\<close> when the index is not in the list\<close>

fun tokenTypes_at :: "SemanticTokensLegend \<Rightarrow> jsnum \<Rightarrow> string option" where
  "tokenTypes_at legend (Num k) =
     (if k < length (tokenTypes legend) then Some (tokenTypes legend ! k) else None)"
| "tokenTypes_at legend _ = None"

text \<open>\<open>legend.tokenModifiers.filter((_, m) => bits & (1 << m))\<close>\<close>

definition modifiers_filter :: "SemanticTokensLegend \<Rightarrow> jsnum \<Rightarrow> string list" where
  "modifiers_filter legend bits =
     map fst (filter (\<lambda>(name, m). js_bit_test bits m)
                (zip (tokenModifiers legend) [0 ..< length (tokenModifiers legend)]))"

text \<open>The body of the first loop: the relative highlight read at index \<open>i\<close>.\<close>

definition relative_at :: "SemanticTokensLegend \<Rightarrow> nat list \<Rightarrow> nat \<Rightarrow> RelativeHighlight" where
  "relative_at legend toks i =
     (let dLine = js_index toks i;
          dStartCharacter = js_index toks (i + 1);
          len = js_index toks (i + 2);
          tType = js_index toks (i + 3);
          tModifiers = modifiers_filter legend (js_index toks (i + 4))
      in \<lparr>tokenType = tokenTypes_at legend tType, rh_tokenModifiers = tModifiers,
          deltaLine = dLine, deltaStartCharacter = dStartCharacter, length' = len\<rparr>)"

text \<open>\<open>for (let i = 0; i < tokens.length; i += 5) { ... relatives.push(...) }\<close>\<close>

function relatives_loop ::
  "SemanticTokensLegend \<Rightarrow> nat list \<Rightarrow> nat \<Rightarrow> RelativeHighlight list \<Rightarrow> RelativeHighlight list" where
  "relatives_loop legend toks i relatives =
     (if i < length toks
      then relatives_loop legend toks (i + 5) (relatives @ [relative_at legend toks i])
      else relatives)"
  by pat_completeness auto
termination
  by (relation "measure (\<lambda>(legend, toks, i, relatives). length toks - i)") auto

declare relatives_loop.simps [simp del]

text \<open>The options of one item: inclusive ends for variables and strings only.\<close>

definition item_opts :: "string option \<Rightarrow> HighlightItemOption" where
  "item_opts tType =
     (let opt = \<lparr>combine = False, end_incl = None, start_incl = None\<rparr>
      in if tType = Some ''variable'' \<or> tType = Some ''string''
         then opt\<lparr>end_incl := Some True, start_incl := Some True\<rparr>
         else opt)"

text \<open>
  \<open>for (const {tokenType, deltaLine, deltaStartCharacter, length} of relatives) { ... }\<close>;
  the loop ends at the first range that \<open>Range.create\<close> refuses.
\<close>

fun highlights_loop ::
  "RelativeHighlight list \<Rightarrow> jsnum \<Rightarrow> jsnum \<Rightarrow> HighlightItem list \<Rightarrow>
   error + HighlightItem list" where
  "highlights_loop [] currentLine currentCharacter res = Inr res"
| "highlights_loop (r # relatives) currentLine currentCharacter res =
     (let lnum = js_add currentLine (deltaLine r);
          startChar = (if deltaLine r = Num 0
                       then js_add currentCharacter (deltaStartCharacter r)
                       else deltaStartCharacter r);
          endChar = js_add startChar (length' r)
      in case Range_create lnum startChar lnum endChar of
           Inl e \<Rightarrow> Inl e
         | Inr rng \<Rightarrow>
             (let grp = js_concat HLGROUP_PREFIX (tokenType r)
              in highlights_loop relatives lnum startChar
                   (addHighlights res grp rng (item_opts (tokenType r)))))"

text \<open>Lines 132 to 164: from the flat token array to the highlight items.\<close>

definition decode :: "SemanticTokensLegend \<Rightarrow> nat list \<Rightarrow> error + HighlightItem list" where
  "decode legend toks = highlights_loop (relatives_loop legend toks 0 []) (Num 0) (Num 0) []"

subsection \<open>Delta applier: lines 121 to 130\<close>

record SemanticTokensEdit =
  start :: nat
  deleteCount :: nat
  data :: "nat list"

text \<open>
  \<open>xs.splice(start, deleteCount, ...items)\<close> for unsigned integer arguments: the start is
  clamped to the length of the array and the delete count to what is left after it.
\<close>

definition js_splice :: "nat list \<Rightarrow> nat \<Rightarrow> nat \<Rightarrow> nat list \<Rightarrow> nat list" where
  "js_splice xs st dc items =
     (let actualStart = min st (length xs);
          actualDeleteCount = min dc (length xs - actualStart)
      in take actualStart xs @ items @ drop (actualStart + actualDeleteCount) xs)"

text \<open>The callback of \<open>result.edits.forEach\<close>, with its two branches.\<close>

definition apply_edit :: "nat list \<Rightarrow> SemanticTokensEdit \<Rightarrow> nat list" where
  "apply_edit toks e =
     (if deleteCount e > 0
      then js_splice toks (start e) (deleteCount e) (data e)
      else js_splice toks (start e) 0 (data e))"

fun edits_forEach :: "SemanticTokensEdit list \<Rightarrow> nat list \<Rightarrow> nat list" where
  "edits_forEach [] toks = toks"
| "edits_forEach (e # es) toks = edits_forEach es (apply_edit toks e)"

subsection \<open>The buffer object and its collaborators\<close>

text \<open>
  The provider answers with a full result (\<open>SemanticTokens.is(result)\<close> holds) or with
  a delta; both carry an optional result identifier.
\<close>

datatype SemanticTokensResult =
    SemanticTokens "string option" "nat list"
  | SemanticTokensDelta "string option" "SemanticTokensEdit list"

text \<open>
  What the workspace and the language registry answer at one moment:
  \<open>workspace.getDocument(bufnr)\<close> with the document's \<open>attached\<close> flag and version,
  \<open>languages.getLegend\<close>, \<open>languages.hasProvider('semanticTokens', _)\<close>,
  \<open>languages.hasSemanticTokensEdits\<close>, and \<open>config.enabled\<close>.
\<close>

record TextDocument =
  attached :: bool
  doc_version :: int
  getLegend :: "SemanticTokensLegend option"
  hasProvider :: bool
  hasSemanticTokensEdits :: bool

record Env =
  config_enabled :: bool
  getDocument :: "TextDocument option"

text \<open>
  Calls to the collaborators, in the order they are made. A cancellation token is named
  by the number of the \<open>CancellationTokenSource\<close> that owns it; the calls on the
  highlights carry the namespace, and \<open>applyDiffHighlights\<close> its priority (the buffer
  number is the same in every call and is left out). The change set that
  \<open>window.diffHighlights\<close> returns is only handed on to \<open>window.applyDiffHighlights\<close>;
  its type is left abstract.
\<close>

typedecl HighlightDiff

datatype effect =
    ProvideDocumentSemanticTokens nat
  | ProvideDocumentSemanticTokensEdits string nat
  | DiffHighlights string "HighlightItem list"
  | ApplyDiffHighlights string nat HighlightDiff
  | ClearNamespace string

text \<open>
  The fields of \<open>SemanticTokensBuffer\<close>. \<open>tokenSource\<close> is the source held by the object
  (\<open>None\<close> for \<open>null\<close> and for the field before its first assignment);
  \<open>cancelledTokens\<close> are the sources on which \<open>cancel()\<close> was called and
  \<open>sourcesCreated\<close> counts the sources created so far; \<open>priv_highlights\<close> is the field
  \<open>_highlights\<close>; \<open>debouncePending\<close> tells whether the timer of the debounced
  \<open>highlight\<close> function is running. \<open>arrays\<close> is the store of the token arrays,
  from addresses to contents, and \<open>arraysCreated\<close> the next free address: the arrays
  received so far have the addresses below it.
\<close>

record SemanticTokensBuffer =
  tokenSource :: "nat option"
  cancelledTokens :: "nat set"
  sourcesCreated :: nat
  priv_highlights :: "HighlightItem list option"
  previousResults :: "SemanticTokensPreviousResult option"
  debouncePending :: bool
  arrays :: "nat \<Rightarrow> nat list"
  arraysCreated :: nat

text \<open>\<open>this.highlight()\<close> starts or restarts the timer, \<open>this.highlight.clear()\<close> stops it.\<close>

definition highlight :: "SemanticTokensBuffer \<Rightarrow> SemanticTokensBuffer" where
  "highlight b = b\<lparr>debouncePending := True\<rparr>"

definition highlight_clear :: "SemanticTokensBuffer \<Rightarrow> SemanticTokensBuffer" where
  "highlight_clear b = b\<lparr>debouncePending := False\<rparr>"

text \<open>The constructor assigns no field and calls \<open>this.highlight()\<close>.\<close>

definition constructor :: SemanticTokensBuffer where
  "constructor =
     highlight \<lparr>tokenSource = None, cancelledTokens = {}, sourcesCreated = 0,
                priv_highlights = None, previousResults = None, debouncePending = False,
                arrays = (\<lambda>a. []), arraysCreated = 0\<rparr>"

definition cancel :: "SemanticTokensBuffer \<Rightarrow> SemanticTokensBuffer" where
  "cancel b =
     (case tokenSource b of
        None \<Rightarrow> b
      | Some t \<Rightarrow> b\<lparr>cancelledTokens := insert t (cancelledTokens b), tokenSource := None\<rparr>)"

definition onChange :: "SemanticTokensBuffer \<Rightarrow> SemanticTokensBuffer" where
  "onChange b = highlight (cancel b)"

definition highlights :: "SemanticTokensBuffer \<Rightarrow> HighlightItem list option" where
  "highlights b = priv_highlights b"

definition enabled :: "Env \<Rightarrow> bool" where
  "enabled env =
     (if \<not> config_enabled env then False
      else case getDocument env of
             None \<Rightarrow> False
           | Some doc \<Rightarrow>
               if \<not> attached doc then False
               else if getLegend doc = None then False
               else hasProvider doc)"

definition previousVersion :: "SemanticTokensBuffer \<Rightarrow> int option" where
  "previousVersion b =
     (case previousResults b of None \<Rightarrow> None | Some p \<Rightarrow> Some (version p))"

definition clearHighlight :: "SemanticTokensBuffer \<Rightarrow> SemanticTokensBuffer \<times> effect list" where
  "clearHighlight b = (b, [ClearNamespace NAMESPACE])"

definition setState :: "bool \<Rightarrow> SemanticTokensBuffer \<Rightarrow> SemanticTokensBuffer \<times> effect list" where
  "setState on b = (if on then (highlight b, []) else clearHighlight (highlight_clear b))"

definition dispose :: "SemanticTokensBuffer \<Rightarrow> SemanticTokensBuffer \<times> effect list" where
  "dispose b =
     (let b1 = b\<lparr>priv_highlights := Some []\<rparr>;
          b2 = highlight_clear b1;
          b3 = b2\<lparr>previousResults := None\<rparr>
      in (cancel b3, []))"

subsection \<open>\<open>requestHighlights\<close> and \<open>doHighlight\<close>, cut at their suspension points\<close>

text \<open>
  What \<open>requestHighlights\<close> keeps across \<open>await\<close>: its cancellation token, the legend,
  the previous result it chose and the document version read before the request.
\<close>

record pending =
  p_token :: nat
  p_legend :: "SemanticTokensLegend option"
  p_previousResult :: "SemanticTokensPreviousResult option"
  p_version :: int

text \<open>\<open>previousResult?.resultId\<close>, and its use as a condition (the empty string is falsy)\<close>

definition chain_resultId :: "SemanticTokensPreviousResult option \<Rightarrow> string option" where
  "chain_resultId previousResult =
     (case previousResult of None \<Rightarrow> None | Some p \<Rightarrow> resultId p)"

definition js_truthy :: "string option \<Rightarrow> bool" where
  "js_truthy s = (case s of None \<Rightarrow> False | Some str \<Rightarrow> str \<noteq> [])"

text \<open>Lines 106 to 116: the request that is sent, and what is kept for the response.\<close>

definition requestHighlights_request ::
  "TextDocument \<Rightarrow> SemanticTokensBuffer \<Rightarrow> nat \<Rightarrow> bool \<Rightarrow> effect \<times> pending" where
  "requestHighlights_request doc b token forceFull =
     (let legend = getLegend doc;
          hasEditProvider = hasSemanticTokensEdits doc;
          previousResult = (if forceFull then None else previousResults b);
          ver = doc_version doc;
          p = \<lparr>p_token = token, p_legend = legend, p_previousResult = previousResult,
               p_version = ver\<rparr>
      in if hasEditProvider \<and> js_truthy (chain_resultId previousResult)
         then (ProvideDocumentSemanticTokensEdits (the (chain_resultId previousResult)) token, p)
         else (ProvideDocumentSemanticTokens token, p))"

text \<open>
  Lines 118 to 130: the array \<open>tokens\<close> of the response. The data of a full result is
  an array of its own, at a fresh address. A delta is applied to the array of the
  previous result chosen at request time, spliced in place: the cache and every request
  in flight that share the array see the change. A missing previous result, or a missing
  array with an edit to apply, throws.
\<close>

definition response_tokens ::
  "pending \<Rightarrow> SemanticTokensBuffer \<Rightarrow> SemanticTokensResult \<Rightarrow>
   error + SemanticTokensBuffer \<times> nat option" where
  "response_tokens p b result =
     (case result of
        SemanticTokens rid dat \<Rightarrow>
          (let a = arraysCreated b
           in Inr (b\<lparr>arrays := (arrays b)(a := dat), arraysCreated := a + 1\<rparr>, Some a))
      | SemanticTokensDelta rid edits \<Rightarrow>
          (case p_previousResult p of
             None \<Rightarrow> Inl TypeError
           | Some prev \<Rightarrow>
               (case tokens prev of
                  None \<Rightarrow> if edits = [] then Inr (b, None) else Inl TypeError
                | Some a \<Rightarrow>
                    Inr (b\<lparr>arrays := (arrays b)(a := edits_forEach edits (arrays b a))\<rparr>,
                         Some a))))"

definition result_resultId :: "SemanticTokensResult \<Rightarrow> string option" where
  "result_resultId result =
     (case result of SemanticTokens rid dat \<Rightarrow> rid | SemanticTokensDelta rid edits \<Rightarrow> rid)"

text \<open>
  Lines 131 to 166. The cache is written first; reading \<open>tokens.length\<close> of an
  undefined array, a property of a missing legend inside the first loop, or a range that
  \<open>Range.create\<close> refuses, throws after that write and before the snapshot is assigned.
\<close>

definition requestHighlights_decode ::
  "pending \<Rightarrow> SemanticTokensBuffer \<Rightarrow> string option \<Rightarrow> nat option \<Rightarrow>
   SemanticTokensBuffer \<times> (error + HighlightItem list option)" where
  "requestHighlights_decode p b rid toks =
     (let b1 = b\<lparr>previousResults :=
                   Some \<lparr>version = p_version p, resultId = rid, tokens = toks\<rparr>\<rparr>
      in case toks of
           None \<Rightarrow> (b1, Inl TypeError)
         | Some a \<Rightarrow>
             (case p_legend p of
                None \<Rightarrow>
                  if arrays b1 a = [] then (b1\<lparr>priv_highlights := Some []\<rparr>, Inr (Some []))
                  else (b1, Inl TypeError)
              | Some legend \<Rightarrow>
                  (case decode legend (arrays b1 a) of
                     Inl e \<Rightarrow> (b1, Inl e)
                   | Inr res \<Rightarrow> (b1\<lparr>priv_highlights := Some res\<rparr>, Inr (Some res)))))"

text \<open>Lines 117 to 166: the response is dropped, or its array is found and decoded.\<close>

definition requestHighlights_response ::
  "pending \<Rightarrow> SemanticTokensBuffer \<Rightarrow> SemanticTokensResult option \<Rightarrow>
   SemanticTokensBuffer \<times> (error + HighlightItem list option)" where
  "requestHighlights_response p b result =
     (if p_token p \<in> cancelledTokens b \<or> result = None then (b, Inr None)
      else case response_tokens p b (the result) of
             Inl e \<Rightarrow> (b, Inl e)
           | Inr (b1, toks) \<Rightarrow>
               requestHighlights_decode p b1 (result_resultId (the result)) toks)"

text \<open>How one run of \<open>doHighlight\<close> stands when it gives up control.\<close>

datatype outcome = Returned | Threw error | AwaitProvider pending | AwaitDiff nat

text \<open>Lines 170 to 173, up to the provider request.\<close>

definition doHighlight_begin ::
  "Env \<Rightarrow> SemanticTokensBuffer \<Rightarrow> SemanticTokensBuffer \<times> effect list \<times> outcome" where
  "doHighlight_begin env b =
     (if \<not> enabled env then (b, [], Returned)
      else let b1 = cancel b;
               t = sourcesCreated b1;
               b2 = b1\<lparr>tokenSource := Some t, sourcesCreated := t + 1\<rparr>
           in case getDocument env of
                None \<Rightarrow> (b2, [], Threw TypeError)
              | Some doc \<Rightarrow>
                  (let (call, p) = requestHighlights_request doc b2 t False
                   in (b2, [call], AwaitProvider p)))"

text \<open>Lines 173 to 176: the provider has answered; the items go to \<open>diffHighlights\<close>.\<close>

definition doHighlight_response ::
  "pending \<Rightarrow> SemanticTokensBuffer \<Rightarrow> SemanticTokensResult option \<Rightarrow>
   SemanticTokensBuffer \<times> effect list \<times> outcome" where
  "doHighlight_response p b result =
     (case requestHighlights_response p b result of
        (b1, Inl e) \<Rightarrow> (b1, [], Threw e)
      | (b1, Inr None) \<Rightarrow> (b1, [], Returned)
      | (b1, Inr (Some items)) \<Rightarrow> (b1, [DiffHighlights NAMESPACE items], AwaitDiff (p_token p)))"

text \<open>Lines 177 to 179: the diff has been computed.\<close>

definition doHighlight_diffed ::
  "nat \<Rightarrow> SemanticTokensBuffer \<Rightarrow> HighlightDiff option \<Rightarrow>
   SemanticTokensBuffer \<times> effect list \<times> outcome" where
  "doHighlight_diffed token b diff =
     (let b1 = b\<lparr>tokenSource := None\<rparr>
      in if token \<in> cancelledTokens b1 \<or> diff = None then (b1, [], Returned)
         else (b1, [ApplyDiffHighlights NAMESPACE 99 (the diff)], Returned))"

definition forceHighlight ::
  "Env \<Rightarrow> SemanticTokensBuffer \<Rightarrow> SemanticTokensBuffer \<times> effect list \<times> outcome" where
  "forceHighlight env b = doHighlight_begin env (highlight_clear b)"

text \<open>The debounce timer fires and runs \<open>doHighlight\<close>.\<close>

definition timer_fires ::
  "Env \<Rightarrow> SemanticTokensBuffer \<Rightarrow> SemanticTokensBuffer \<times> effect list \<times> outcome" where
  "timer_fires env b =
     (if debouncePending b then doHighlight_begin env (b\<lparr>debouncePending := False\<rparr>)
      else (b, [], Returned))"

subsection \<open>Events on one buffer\<close>

datatype event =
    OnChange
  | SetState bool
  | ForceHighlight Env
  | TimerFires Env
  | ProviderResponse pending "SemanticTokensResult option"
  | DiffResponse nat "HighlightDiff option"
  | Cancel
  | ClearHighlight
  | Dispose

fun step :: "SemanticTokensBuffer \<Rightarrow> event \<Rightarrow> SemanticTokensBuffer \<times> effect list \<times> outcome" where
  "step b OnChange = (onChange b, [], Returned)"
| "step b (SetState on) = (let (b1, effs) = setState on b in (b1, effs, Returned))"
| "step b (ForceHighlight env) = forceHighlight env b"
| "step b (TimerFires env) = timer_fires env b"
| "step b (ProviderResponse p result) = doHighlight_response p b result"
| "step b (DiffResponse token diff) = doHighlight_diffed token b diff"
| "step b Cancel = (cancel b, [], Returned)"
| "step b ClearHighlight = (let (b1, effs) = clearHighlight b in (b1, effs, Returned))"
| "step b Dispose = (let (b1, effs) = dispose b in (b1, effs, Returned))"

fun run :: "SemanticTokensBuffer \<Rightarrow> event list \<Rightarrow> SemanticTokensBuffer" where
  "run b [] = b"
| "run b (ev # evs) = run (fst (step b ev)) evs"

text \<open>
  An event completes a decode when it is a provider response on which
  \<open>requestHighlights\<close> reaches its last two lines and returns the items.
\<close>

fun completes_decode :: "SemanticTokensBuffer \<Rightarrow> event \<Rightarrow> bool" where
  "completes_decode b (ProviderResponse p result) =
     (case snd (requestHighlights_response p b result) of
        Inr (Some items) \<Rightarrow> True
      | _ \<Rightarrow> False)"
| "completes_decode b _ = False"

fun is_Dispose :: "event \<Rightarrow> bool" where
  "is_Dispose Dispose = True"
| "is_Dispose _ = False"

text \<open>No event of the sequence, run from \<open>b\<close>, completes a decode or disposes the buffer.\<close>

fun before_first_decode :: "SemanticTokensBuffer \<Rightarrow> event list \<Rightarrow> bool" where
  "before_first_decode b [] = True"
| "before_first_decode b (ev # evs) =
     (\<not> completes_decode b ev \<and> \<not> is_Dispose ev \<and> before_first_decode (fst (step b ev)) evs)"

subsection \<open>The decoder on whole quintuples\<close>

text \<open>
  An auxiliary view of the decoder, by recursion on the flat array five elements at a
  time, with the cursor \<open>(line, char)\<close> as arguments: \<open>ranges_fit\<close> tells whether every
  range is one that \<open>Range.create\<close> builds, and \<open>decode_from\<close> gives the items. They are
  used in proofs only; on arrays whose length is a multiple of 5, \<open>decode\<close> returns the
  items of \<open>decode_from\<close> when \<open>ranges_fit\<close> holds and throws otherwise
  (\<open>decode_is_decode_from\<close>).
\<close>

fun ranges_fit :: "nat \<Rightarrow> nat \<Rightarrow> nat list \<Rightarrow> bool" where
  "ranges_fit line char (dl # dc # len # ty # m # rest) =
     (let line' = line + dl;
          char' = (if dl = 0 then char + dc else dc)
      in line' \<le> uinteger_MAX_VALUE \<and> char' + len \<le> uinteger_MAX_VALUE
         \<and> ranges_fit line' char' rest)"
| "ranges_fit line char _ = True"

fun decode_from :: "SemanticTokensLegend \<Rightarrow> nat \<Rightarrow> nat \<Rightarrow> nat list \<Rightarrow> HighlightItem list" where
  "decode_from legend line char (dl # dc # len # ty # m # rest) =
     (let line' = line + dl;
          char' = (if dl = 0 then char + dc else dc)
      in \<lparr>hlGroup = js_concat HLGROUP_PREFIX (tokenTypes_at legend (Num ty)),
          range = \<lparr>startLine = Num line', startCharacter = Num char',
                    endLine = Num line', endCharacter = Num (char' + len)\<rparr>,
          opts = item_opts (tokenTypes_at legend (Num ty))\<rparr>
         # decode_from legend line' char' rest)"
| "decode_from legend line char _ = []"

text \<open>
  Two flat arrays differ only in the fifth component of their quintuples: same length,
  and equal at every index that is not 4 modulo 5.
\<close>

definition same_but_modifiers :: "nat list \<Rightarrow> nat list \<Rightarrow> bool" where
  "same_but_modifiers xs ys =
     (length xs = length ys \<and> (\<forall>i < length xs. i mod 5 \<noteq> 4 \<longrightarrow> xs ! i = ys ! i))"

text \<open>The start position of an item, and the order of start positions (line first).\<close>

definition item_start :: "HighlightItem \<Rightarrow> jsnum \<times> jsnum" where
  "item_start it = (startLine (range it), startCharacter (range it))"

definition start_le :: "jsnum \<times> jsnum \<Rightarrow> jsnum \<times> jsnum \<Rightarrow> bool" where
  "start_le p q = (js_lt (fst p) (fst q) \<or> (fst p = fst q \<and> js_le (snd p) (snd q)))"

section \<open>Theorems\<close>

text \<open>
  C1: for the legend with types [variable, function] and no modifiers, the flat array
  [0,0,3,0,0, 0,4,2,1,0] decodes to exactly two items, in order: range (0,0,0,3) with group
  CocSem_variable and both inclusivity flags set, then range (0,4,0,6) with group
  CocSem_function and both flags unset; combine is false on both.
\<close>

theorem decode_example_two_tokens:
  "decode \<lparr>tokenTypes = [''variable'', ''function''], tokenModifiers = []\<rparr>
     [0, 0, 3, 0, 0, 0, 4, 2, 1, 0] =
   Inr [\<lparr>hlGroup = ''CocSem_variable'',
     range = \<lparr>startLine = Num 0, startCharacter = Num 0, endLine = Num 0, endCharacter = Num 3\<rparr>,
     opts = \<lparr>combine = False, end_incl = Some True, start_incl = Some True\<rparr>\<rparr>,
    \<lparr>hlGroup = ''CocSem_function'',
     range = \<lparr>startLine = Num 0, startCharacter = Num 4, endLine = Num 0, endCharacter = Num 6\<rparr>,
     opts = \<lparr>combine = False, end_incl = None, start_incl = None\<rparr>\<rparr>]"
  by (simp add: decode_def relatives_loop.simps relative_at_def js_index_def modifiers_filter_def
      Range_create_def uinteger_MAX_VALUE_def HLGROUP_PREFIX_def addHighlights_def
      item_opts_def Let_def)

subsection \<open>Delta applier\<close>

lemma js_splice_eq: "js_splice xs s dc items = take s xs @ items @ drop (s + dc) xs"
  by (auto simp: js_splice_def Let_def min_def)

text \<open>
  C3: the edit operations of a delta are applied one after another, each one splicing
  \<open>deleteCount\<close> elements at index \<open>start\<close> out of, and inserting \<open>data\<close> into, the
  array left by the operation before it; an edit with \<open>deleteCount = 0\<close> inserts at
  \<open>start\<close>; and the edits \<open>{start:5, deleteCount:0, data:[1,2,3,0,0]}\<close> then
  \<open>{start:0, deleteCount:5, data:[]}\<close> turn [0,0,1,0,0] into [1,2,3,0,0].
\<close>

theorem edits_applied_in_sequence:
  "edits_forEach [] toks = toks
   \<and> edits_forEach (es @ [e]) toks = apply_edit (edits_forEach es toks) e
   \<and> apply_edit toks e = take (start e) toks @ data e @ drop (start e + deleteCount e) toks
   \<and> apply_edit toks \<lparr>start = s, deleteCount = 0, data = d\<rparr> = take s toks @ d @ drop s toks
   \<and> edits_forEach [\<lparr>start = 5, deleteCount = 0, data = [1, 2, 3, 0, 0]\<rparr>,
                     \<lparr>start = 0, deleteCount = 5, data = []\<rparr>] [0, 0, 1, 0, 0] = [1, 2, 3, 0, 0]"
proof -
  have seq: "edits_forEach (es @ [e]) toks = apply_edit (edits_forEach es toks) e"
    by (induction es arbitrary: toks) simp_all
  have one: "apply_edit toks e = take (start e) toks @ data e @ drop (start e + deleteCount e) toks"
    by (simp add: apply_edit_def js_splice_eq)
  have ins: "apply_edit toks \<lparr>start = s, deleteCount = 0, data = d\<rparr> = take s toks @ d @ drop s toks"
    by (simp add: apply_edit_def js_splice_eq)
  have ex: "edits_forEach [\<lparr>start = 5, deleteCount = 0, data = [1, 2, 3, 0, 0]\<rparr>,
                     \<lparr>start = 0, deleteCount = 5, data = []\<rparr>] [0, 0, 1, 0, 0] = [1, 2, 3, 0, 0::nat]"
    by (simp add: apply_edit_def js_splice_eq)
  show ?thesis using seq one ins ex by simp
qed

subsection \<open>Choice of the request\<close>

text \<open>
  C5, evaluated on the code: \<open>forceHighlight\<close> on a buffer whose cache holds the result
  identifier \<open>r1\<close>, with a provider that supports edits, sends the edits request for
  \<open>r1\<close>, not a full request, since \<open>doHighlight\<close> passes \<open>false\<close> for \<open>forceFull\<close>.
\<close>

theorem forceHighlight_sends_delta_request:
  "forceHighlight
     \<lparr>config_enabled = True,
      getDocument = Some \<lparr>attached = True, doc_version = 2,
                          getLegend = Some \<lparr>tokenTypes = [''variable'', ''function''], tokenModifiers = []\<rparr>,
                          hasProvider = True, hasSemanticTokensEdits = True\<rparr>\<rparr>
     \<lparr>tokenSource = None, cancelledTokens = {}, sourcesCreated = 1,
      priv_highlights = Some [],
      previousResults = Some \<lparr>version = 1, resultId = Some ''r1'', tokens = Some 0\<rparr>,
      debouncePending = False,
      arrays = (\<lambda>a. [])(0 := [0, 0, 3, 0, 0]), arraysCreated = 1\<rparr>
   = (\<lparr>tokenSource = Some 1, cancelledTokens = {}, sourcesCreated = 2,
      priv_highlights = Some [],
      previousResults = Some \<lparr>version = 1, resultId = Some ''r1'', tokens = Some 0\<rparr>,
      debouncePending = False,
      arrays = (\<lambda>a. [])(0 := [0, 0, 3, 0, 0]), arraysCreated = 1\<rparr>,
      [ProvideDocumentSemanticTokensEdits ''r1'' 1],
      AwaitProvider \<lparr>p_token = 1,
        p_legend = Some \<lparr>tokenTypes = [''variable'', ''function''], tokenModifiers = []\<rparr>,
        p_previousResult = Some \<lparr>version = 1, resultId = Some ''r1'', tokens = Some 0\<rparr>,
        p_version = 2\<rparr>)"
  by (simp add: forceHighlight_def highlight_clear_def doHighlight_begin_def enabled_def cancel_def
      requestHighlights_request_def js_truthy_def chain_resultId_def Let_def)

text \<open>
  C6: \<open>requestHighlights\<close> sends the edits request only when the provider supports
  edits and the cached previous result holds a result identifier (the one sent); in every
  other case it sends a full request, so no edits request is sent when the cache holds
  no result identifier. One of the two requests is always sent.
\<close>

theorem delta_request_needs_edit_provider_and_resultId:
  "(\<forall>rid t. fst (requestHighlights_request doc b token forceFull) = ProvideDocumentSemanticTokensEdits rid t
       \<longrightarrow> hasSemanticTokensEdits doc \<and> \<not> forceFull \<and> t = token
           \<and> (\<exists>prev. previousResults b = Some prev \<and> resultId prev = Some rid))
   \<and> (\<not> (hasSemanticTokensEdits doc \<and> (\<exists>prev rid. previousResults b = Some prev \<and> resultId prev = Some rid))
       \<longrightarrow> fst (requestHighlights_request doc b token forceFull) = ProvideDocumentSemanticTokens token)
   \<and> (fst (requestHighlights_request doc b token forceFull) = ProvideDocumentSemanticTokens token
       \<or> (\<exists>rid. fst (requestHighlights_request doc b token forceFull) = ProvideDocumentSemanticTokensEdits rid token))"
  by (auto simp: requestHighlights_request_def js_truthy_def chain_resultId_def Let_def
      split: option.splits if_splits)

theorem delta_request_needs_edit_provider_and_resultId_witness:
  "fst (requestHighlights_request
          \<lparr>attached = True, doc_version = 2, getLegend = None, hasProvider = True,
           hasSemanticTokensEdits = True\<rparr>
          \<lparr>tokenSource = Some 0, cancelledTokens = {}, sourcesCreated = 1, priv_highlights = None,
           previousResults = Some \<lparr>version = 1, resultId = Some ''r1'', tokens = Some 0\<rparr>,
           debouncePending = False, arrays = (\<lambda>a. []), arraysCreated = 1\<rparr> 0 False)
     = (ProvideDocumentSemanticTokensEdits ''r1'' 0)
   \<and> \<not> (hasSemanticTokensEdits
            \<lparr>attached = True, doc_version = 2, getLegend = None, hasProvider = True,
             hasSemanticTokensEdits = True\<rparr>
          \<and> (\<exists>prev rid. previousResults constructor = Some prev \<and> resultId prev = Some rid))
   \<and> fst (requestHighlights_request
          \<lparr>attached = True, doc_version = 2, getLegend = None, hasProvider = True,
           hasSemanticTokensEdits = True\<rparr> constructor 0 False)
     = (ProvideDocumentSemanticTokens 0)"
  using delta_request_needs_edit_provider_and_resultId
    [of "\<lparr>attached = True, doc_version = 2, getLegend = None, hasProvider = True,
           hasSemanticTokensEdits = True\<rparr>"
        "\<lparr>tokenSource = Some 0, cancelledTokens = {}, sourcesCreated = 1, priv_highlights = None,
           previousResults = Some \<lparr>version = 1, resultId = Some ''r1'', tokens = Some 0\<rparr>,
           debouncePending = False, arrays = (\<lambda>a. []), arraysCreated = 1\<rparr>" 0 False]
    delta_request_needs_edit_provider_and_resultId
    [of "\<lparr>attached = True, doc_version = 2, getLegend = None, hasProvider = True,
           hasSemanticTokensEdits = True\<rparr>" constructor 0 False]
  by (simp add: requestHighlights_request_def js_truthy_def chain_resultId_def constructor_def
      highlight_def)

subsection \<open>Cancelled and absent responses\<close>

text \<open>
  C7: when the cancellation token of the request has been triggered by the time the
  response is observed, or the response is absent, the response is discarded: the buffer
  object is left as it was (cache and highlights snapshot included) and neither the diff
  nor the apply collaborator is called.
\<close>

theorem cancelled_or_absent_response_discarded:
  "p_token p \<in> cancelledTokens b \<or> result = None \<Longrightarrow>
     requestHighlights_response p b result = (b, Inr None)
     \<and> doHighlight_response p b result = (b, [], Returned)"
  by (auto simp: requestHighlights_response_def doHighlight_response_def)

text \<open>
  The debounce timer fires on a fresh buffer and sends a request with token 0; a document
  change cancels it; the full result that arrives afterwards changes nothing.
\<close>

theorem cancelled_or_absent_response_discarded_witness:
  "0 \<in> cancelledTokens (onChange (fst (timer_fires
        \<lparr>config_enabled = True,
         getDocument = Some \<lparr>attached = True, doc_version = 1,
           getLegend = Some \<lparr>tokenTypes = [''variable''], tokenModifiers = []\<rparr>,
           hasProvider = True, hasSemanticTokensEdits = False\<rparr>\<rparr> constructor)))
   \<and> (doHighlight_response
        \<lparr>p_token = 0, p_legend = Some \<lparr>tokenTypes = [''variable''], tokenModifiers = []\<rparr>,
         p_previousResult = None, p_version = 1\<rparr>
        (onChange (fst (timer_fires
        \<lparr>config_enabled = True,
         getDocument = Some \<lparr>attached = True, doc_version = 1,
           getLegend = Some \<lparr>tokenTypes = [''variable''], tokenModifiers = []\<rparr>,
           hasProvider = True, hasSemanticTokensEdits = False\<rparr>\<rparr> constructor)))
        (Some (SemanticTokens (Some ''r1'') [0, 0, 3, 0, 0])))
     = (\<lparr>tokenSource = None, cancelledTokens = {0}, sourcesCreated = 1, priv_highlights = None,
         previousResults = None, debouncePending = True,
         arrays = (\<lambda>a. []), arraysCreated = 0\<rparr>, [], Returned)"
proof -
  let ?env = "\<lparr>config_enabled = True,
         getDocument = Some \<lparr>attached = True, doc_version = 1,
           getLegend = Some \<lparr>tokenTypes = [''variable''], tokenModifiers = []\<rparr>,
           hasProvider = True, hasSemanticTokensEdits = False\<rparr>\<rparr>"
  let ?b = "onChange (fst (timer_fires ?env constructor))"
  let ?p = "\<lparr>p_token = 0, p_legend = Some \<lparr>tokenTypes = [''variable''], tokenModifiers = []\<rparr>,
         p_previousResult = None, p_version = 1\<rparr>"
  have b: "?b = \<lparr>tokenSource = None, cancelledTokens = {0}, sourcesCreated = 1,
                 priv_highlights = None, previousResults = None, debouncePending = True,
                 arrays = (\<lambda>a. []), arraysCreated = 0\<rparr>"
    by (simp add: onChange_def timer_fires_def constructor_def highlight_def doHighlight_begin_def
        enabled_def cancel_def requestHighlights_request_def js_truthy_def chain_resultId_def Let_def)
  have c: "p_token ?p \<in> cancelledTokens ?b \<or> Some (SemanticTokens (Some ''r1'') [0, 0, 3, 0, 0]) = None"
    by (simp add: b)
  show ?thesis
    using cancelled_or_absent_response_discarded [OF c] b by simp
qed

subsection \<open>The highlights snapshot\<close>

lemma cancel_fields:
  "priv_highlights (cancel b) = priv_highlights b"
  "previousResults (cancel b) = previousResults b"
  "debouncePending (cancel b) = debouncePending b"
  "tokenSource (cancel b) = None"
  by (simp_all add: cancel_def split: option.splits)

lemma cancel_cancels: "tokenSource b = Some t \<Longrightarrow> t \<in> cancelledTokens (cancel b)"
  by (simp add: cancel_def)

lemma doHighlight_begin_keeps_highlights:
  "priv_highlights (fst (doHighlight_begin env b)) = priv_highlights b"
  by (simp add: doHighlight_begin_def Let_def cancel_fields split: option.splits prod.splits)

lemma requestHighlights_response_keeps_highlights:
  assumes "\<And>items. snd (requestHighlights_response p b result) \<noteq> Inr (Some items)"
  shows "priv_highlights (fst (requestHighlights_response p b result)) = priv_highlights b"
proof -
  have "snd (requestHighlights_response p b result) = Inr None \<or>
        (\<exists>e. snd (requestHighlights_response p b result) = Inl e)"
    using assms by (cases "snd (requestHighlights_response p b result)") auto
  then show ?thesis
    by (auto simp: requestHighlights_response_def requestHighlights_decode_def
        response_tokens_def Let_def
        split: option.splits if_splits SemanticTokensResult.splits sum.splits prod.splits)
qed

lemma step_keeps_highlights:
  assumes "\<not> completes_decode b ev" and "\<not> is_Dispose ev"
  shows "priv_highlights (fst (step b ev)) = priv_highlights b"
proof (cases ev)
  case (ProviderResponse p result)
  have "\<And>items. snd (requestHighlights_response p b result) \<noteq> Inr (Some items)"
    using assms(1) ProviderResponse by (auto split: sum.splits option.splits)
  then have "priv_highlights (fst (requestHighlights_response p b result)) = priv_highlights b"
    by (rule requestHighlights_response_keeps_highlights)
  then show ?thesis
    using ProviderResponse
    by (auto simp: doHighlight_response_def split: prod.splits sum.splits option.splits)
next
  case Dispose
  then show ?thesis using assms(2) by simp
qed (simp_all add: onChange_def highlight_def highlight_clear_def cancel_fields setState_def
      clearHighlight_def forceHighlight_def timer_fires_def doHighlight_begin_keeps_highlights
      doHighlight_diffed_def Let_def)

lemma run_keeps_highlights:
  "before_first_decode b evs \<Longrightarrow> priv_highlights (run b evs) = priv_highlights b"
proof (induction evs arbitrary: b)
  case Nil
  then show ?case by simp
next
  case (Cons ev evs)
  then show ?case by (simp add: step_keeps_highlights)
qed

text \<open>
  C10: the \<open>highlights\<close> getter yields \<open>undefined\<close>, not an empty sequence, on the
  constructed object and after every sequence of events in which no decode has completed
  (and the buffer was not disposed); after \<open>dispose\<close> it yields the empty sequence.
\<close>

theorem highlights_undefined_until_first_decode:
  "highlights constructor = None
   \<and> (before_first_decode constructor evs \<longrightarrow> highlights (run constructor evs) = None)
   \<and> highlights (fst (dispose b)) = Some []"
proof -
  have init: "priv_highlights constructor = None"
    by (simp add: constructor_def highlight_def)
  have "before_first_decode constructor evs \<Longrightarrow> priv_highlights (run constructor evs) = None"
    using run_keeps_highlights [of constructor evs] init by simp
  moreover have "priv_highlights (fst (dispose b)) = Some []"
    by (simp add: dispose_def Let_def cancel_fields highlight_clear_def)
  ultimately show ?thesis using init by (simp add: highlights_def)
qed

subsection \<open>The decoder on arrays of whole quintuples\<close>

lemma relatives_loop_acc:
  "relatives_loop legend toks i acc = acc @ relatives_loop legend toks i []"
proof (induction "length toks - i" arbitrary: i acc rule: less_induct)
  case less
  show ?case
  proof (cases "i < length toks")
    case True
    then have d: "length toks - (i + 5) < length toks - i" by arith
    have "relatives_loop legend toks i acc
            = relatives_loop legend toks (i + 5) (acc @ [relative_at legend toks i])"
      using True by (subst relatives_loop.simps) simp
    also have "\<dots> = (acc @ [relative_at legend toks i]) @ relatives_loop legend toks (i + 5) []"
      by (rule less [OF d])
    also have "\<dots> = acc @ relatives_loop legend toks (i + 5) ([] @ [relative_at legend toks i])"
      using less [OF d, of "[] @ [relative_at legend toks i]"] by simp
    also have "\<dots> = acc @ relatives_loop legend toks i []"
      using True by (subst (2) relatives_loop.simps) simp
    finally show ?thesis .
  next
    case False
    then show ?thesis by (simp add: relatives_loop.simps)
  qed
qed

lemma js_index_append: "js_index (pre @ toks) (length pre + j) = js_index toks j"
  by (simp add: js_index_def nth_append)

lemma relative_at_append:
  "relative_at legend (pre @ toks) (length pre + i) = relative_at legend toks i"
proof -
  have "js_index (pre @ toks) (length pre + i + k) = js_index toks (i + k)" for k
    using js_index_append [of pre toks "i + k"] by (simp add: add.assoc)
  then show ?thesis
    using js_index_append [of pre toks i] by (simp only: relative_at_def)
qed

lemma relatives_loop_shift:
  "relatives_loop legend (pre @ toks) (length pre + i) acc = relatives_loop legend toks i acc"
proof (induction legend toks i acc rule: relatives_loop.induct)
  case (1 legend toks i relatives)
  show ?case
  proof (cases "i < length toks")
    case True
    have "relatives_loop legend (pre @ toks) (length pre + i) relatives
            = relatives_loop legend (pre @ toks) (length pre + (i + 5))
                (relatives @ [relative_at legend toks i])"
      using True by (subst relatives_loop.simps) (simp add: relative_at_append add.assoc)
    also have "\<dots> = relatives_loop legend toks (i + 5) (relatives @ [relative_at legend toks i])"
      by (rule "1" [OF True])
    also have "\<dots> = relatives_loop legend toks i relatives"
      using True by (subst (2) relatives_loop.simps) simp
    finally show ?thesis .
  next
    case False
    then show ?thesis by (simp add: relatives_loop.simps)
  qed
qed

lemma relatives_loop_quintuple:
  "relatives_loop legend (dl # dc # len # ty # m # rest) 0 []
     = relative_at legend (dl # dc # len # ty # m # rest) 0 # relatives_loop legend rest 0 []"
proof -
  let ?toks = "dl # dc # len # ty # m # rest"
  have "relatives_loop legend ?toks 0 [] = relatives_loop legend ?toks 5 [relative_at legend ?toks 0]"
    by (subst relatives_loop.simps) simp
  also have "\<dots> = [relative_at legend ?toks 0] @ relatives_loop legend ?toks 5 []"
    by (rule relatives_loop_acc)
  also have "relatives_loop legend ?toks 5 [] = relatives_loop legend rest 0 []"
  proof -
    have five: "length [dl, dc, len, ty, m] + 0 = 5" by simp
    have "relatives_loop legend ([dl, dc, len, ty, m] @ rest) (length [dl, dc, len, ty, m] + 0) []
            = relatives_loop legend rest 0 []"
      by (rule relatives_loop_shift)
    then show ?thesis by (simp only: five append_Cons append_Nil)
  qed
  finally show ?thesis by simp
qed

lemma highlights_loop_acc:
  "highlights_loop rs l c res =
     (case highlights_loop rs l c [] of Inl e \<Rightarrow> Inl e | Inr items \<Rightarrow> Inr (res @ items))"
proof (induction rs arbitrary: l c res)
  case Nil
  then show ?case by simp
next
  case (Cons r rs)
  define lnum where "lnum = js_add l (deltaLine r)"
  define sc where "sc = (if deltaLine r = Num 0 then js_add c (deltaStartCharacter r)
                         else deltaStartCharacter r)"
  show ?case
  proof (cases "Range_create lnum sc lnum (js_add sc (length' r))")
    case (Inl e)
    then have "highlights_loop (r # rs) l c acc = Inl e" for acc
      by (simp add: Let_def lnum_def sc_def)
    then show ?thesis by simp
  next
    case (Inr rng)
    define item where "item = \<lparr>hlGroup = js_concat HLGROUP_PREFIX (tokenType r),
      range = rng, opts = item_opts (tokenType r)\<rparr>"
    have step: "highlights_loop (r # rs) l c acc = highlights_loop rs lnum sc (acc @ [item])" for acc
      using Inr by (simp add: Let_def addHighlights_def lnum_def sc_def item_def)
    have "highlights_loop (r # rs) l c res =
            (case highlights_loop rs lnum sc [] of
               Inl e \<Rightarrow> Inl e | Inr items \<Rightarrow> Inr ((res @ [item]) @ items))"
      using Cons.IH [of lnum sc "res @ [item]"] by (simp only: step)
    moreover have "highlights_loop (r # rs) l c [] =
            (case highlights_loop rs lnum sc [] of
               Inl e \<Rightarrow> Inl e | Inr items \<Rightarrow> Inr ([item] @ items))"
      using Cons.IH [of lnum sc "[item]"] by (simp only: step append_Nil)
    ultimately show ?thesis by (simp split: sum.splits)
  qed
qed

lemma highlights_loop_single:
  "highlights_loop rs l c [item] =
     (case highlights_loop rs l c [] of Inl e \<Rightarrow> Inl e | Inr items \<Rightarrow> Inr (item # items))"
  using highlights_loop_acc [of rs l c "[item]"] by (simp split: sum.splits)

lemma highlights_loop_Cons:
  "highlights_loop (r # rs) l c [] =
     (let lnum = js_add l (deltaLine r);
          sc = (if deltaLine r = Num 0 then js_add c (deltaStartCharacter r)
                else deltaStartCharacter r)
      in case Range_create lnum sc lnum (js_add sc (length' r)) of
           Inl e \<Rightarrow> Inl e
         | Inr rng \<Rightarrow>
             (case highlights_loop rs lnum sc [] of
                Inl e \<Rightarrow> Inl e
              | Inr items \<Rightarrow>
                  Inr (\<lparr>hlGroup = js_concat HLGROUP_PREFIX (tokenType r), range = rng,
                        opts = item_opts (tokenType r)\<rparr> # items)))"
  by (simp add: Let_def addHighlights_def highlights_loop_single split: sum.splits)

lemma Range_create_Num:
  "Range_create (Num l) (Num c) (Num l) (Num (c + len)) =
     (if l \<le> uinteger_MAX_VALUE \<and> c + len \<le> uinteger_MAX_VALUE
      then Inr \<lparr>startLine = Num l, startCharacter = Num c,
                endLine = Num l, endCharacter = Num (c + len)\<rparr>
      else Inl RangeCreateError)"
  by (auto simp: Range_create_def)

lemma highlights_loop_decode_from:
  "length toks mod 5 = 0 \<Longrightarrow>
   highlights_loop (relatives_loop legend toks 0 []) (Num l) (Num c) [] =
     (if ranges_fit l c toks then Inr (decode_from legend l c toks) else Inl RangeCreateError)"
proof (induction legend l c toks rule: decode_from.induct)
  case (1 legend line char dl dc len ty m rest)
  let ?toks = "dl # dc # len # ty # m # rest"
  define l' where "l' = line + dl"
  define c' where "c' = (if dl = 0 then char + dc else dc)"
  have r: "length rest mod 5 = 0" using "1.prems" by simp
  have rel: "relative_at legend ?toks 0 =
      \<lparr>tokenType = tokenTypes_at legend (Num ty),
       rh_tokenModifiers = modifiers_filter legend (Num m),
       deltaLine = Num dl, deltaStartCharacter = Num dc, length' = Num len\<rparr>"
    by (simp add: relative_at_def js_index_def)
  have ih: "highlights_loop (relatives_loop legend rest 0 []) (Num l') (Num c') []
              = (if ranges_fit l' c' rest then Inr (decode_from legend l' c' rest)
                 else Inl RangeCreateError)"
    unfolding l'_def c'_def using "1.IH" [OF refl refl r] by simp
  have cursor: "js_add (Num line) (Num dl) = Num l'"
    "(if Num dl = Num 0 then js_add (Num char) (Num dc) else Num dc) = Num c'"
    by (simp_all add: l'_def c'_def)
  have loop: "highlights_loop (relatives_loop legend ?toks 0 []) (Num line) (Num char) []
      = (case Range_create (Num l') (Num c') (Num l') (Num (c' + len)) of
           Inl e \<Rightarrow> Inl e
         | Inr rng \<Rightarrow>
             (case highlights_loop (relatives_loop legend rest 0 []) (Num l') (Num c') [] of
                Inl e \<Rightarrow> Inl e
              | Inr items \<Rightarrow>
                  Inr (\<lparr>hlGroup = js_concat HLGROUP_PREFIX (tokenTypes_at legend (Num ty)),
                        range = rng, opts = item_opts (tokenTypes_at legend (Num ty))\<rparr>
                       # items)))"
    apply (simp only: relatives_loop_quintuple rel highlights_loop_Cons Let_def
        RelativeHighlight.select_convs cursor)
    apply (simp only: js_add.simps)
    done
  have fit: "ranges_fit line char ?toks =
      (l' \<le> uinteger_MAX_VALUE \<and> c' + len \<le> uinteger_MAX_VALUE \<and> ranges_fit l' c' rest)"
    by (simp add: Let_def l'_def c'_def)
  have items: "decode_from legend line char ?toks =
      \<lparr>hlGroup = js_concat HLGROUP_PREFIX (tokenTypes_at legend (Num ty)),
       range = \<lparr>startLine = Num l', startCharacter = Num c',
                 endLine = Num l', endCharacter = Num (c' + len)\<rparr>,
       opts = item_opts (tokenTypes_at legend (Num ty))\<rparr> # decode_from legend l' c' rest"
    by (simp add: Let_def l'_def c'_def)
  show ?case
    unfolding loop fit items ih Range_create_Num by simp
qed (simp_all add: relatives_loop.simps)

lemma decode_is_decode_from:
  "length toks mod 5 = 0 \<Longrightarrow>
   decode legend toks =
     (if ranges_fit 0 0 toks then Inr (decode_from legend 0 0 toks) else Inl RangeCreateError)"
  by (simp add: decode_def highlights_loop_decode_from)

lemma length_decode_from: "length (decode_from legend l c toks) = length toks div 5"
  by (induction legend l c toks rule: decode_from.induct) (simp_all add: Let_def)

lemma nth_quintuple_tail: "(dl # dc # len # ty # m # rest) ! (5 * Suc j + i) = rest ! (5 * j + i)"
proof -
  have "5 * Suc j + i = Suc (Suc (Suc (Suc (Suc (5 * j + i)))))" by simp
  then show ?thesis by (simp only: nth_Cons_Suc)
qed

lemma decode_from_startLine:
  "k < length toks div 5 \<Longrightarrow>
   startLine (range (decode_from legend l c toks ! k)) = Num (l + (\<Sum>j\<le>k. toks ! (5 * j)))"
proof (induction legend l c toks arbitrary: k rule: decode_from.induct)
  case (1 legend line char dl dc len ty m rest)
  let ?toks = "dl # dc # len # ty # m # rest"
  show ?case
  proof (cases k)
    case 0
    then show ?thesis by (simp add: Let_def)
  next
    case (Suc k')
    then have k': "k' < length rest div 5" using "1.prems" by simp
    have tail: "?toks ! (5 * Suc j) = rest ! (5 * j)" for j
      using nth_quintuple_tail [of dl dc len ty m rest j 0] by simp
    have "(\<Sum>j\<le>Suc k'. ?toks ! (5 * j)) = ?toks ! (5 * 0) + (\<Sum>j\<le>k'. ?toks ! (5 * Suc j))"
      by (rule sum.atMost_Suc_shift)
    then have sum: "(\<Sum>j\<le>Suc k'. ?toks ! (5 * j)) = dl + (\<Sum>j\<le>k'. rest ! (5 * j))"
      by (simp only: tail) simp
    have "startLine (range (decode_from legend line char ?toks ! k))
            = startLine (range (decode_from legend (line + dl)
                 (if dl = 0 then char + dc else dc) rest ! k'))"
      using Suc by (simp add: Let_def)
    also have "\<dots> = Num (line + dl + (\<Sum>j\<le>k'. rest ! (5 * j)))"
      by (rule "1.IH" [OF refl refl k'])
    finally show ?thesis using Suc sum by (simp only: add.assoc)
  qed
qed simp_all

lemma decode_from_startCharacter:
  "k < length toks div 5 \<Longrightarrow>
   startCharacter (range (decode_from legend l c toks ! k)) =
     (if 0 < toks ! (5 * k) then Num (toks ! (5 * k + 1))
      else js_add (if k = 0 then Num c
                   else startCharacter (range (decode_from legend l c toks ! (k - 1))))
             (Num (toks ! (5 * k + 1))))"
proof (induction legend l c toks arbitrary: k rule: decode_from.induct)
  case (1 legend line char dl dc len ty m rest)
  let ?toks = "dl # dc # len # ty # m # rest"
  let ?l = "line + dl"
  let ?c = "if dl = 0 then char + dc else dc"
  have unfold: "decode_from legend line char ?toks
      = \<lparr>hlGroup = js_concat HLGROUP_PREFIX (tokenTypes_at legend (Num ty)),
          range = \<lparr>startLine = Num ?l, startCharacter = Num ?c,
                    endLine = Num ?l, endCharacter = Num (?c + len)\<rparr>,
          opts = item_opts (tokenTypes_at legend (Num ty))\<rparr> # decode_from legend ?l ?c rest"
    by (simp add: Let_def)
  show ?case
  proof (cases k)
    case 0
    then show ?thesis by (simp add: Let_def)
  next
    case (Suc k')
    then have k': "k' < length rest div 5" using "1.prems" by simp
    have t0: "?toks ! (5 * Suc k') = rest ! (5 * k')"
      using nth_quintuple_tail [of dl dc len ty m rest k' 0] by simp
    have t1: "?toks ! (5 * Suc k' + 1) = rest ! (5 * k' + 1)"
      by (rule nth_quintuple_tail)
    have ih: "startCharacter (range (decode_from legend ?l ?c rest ! k')) =
       (if 0 < rest ! (5 * k') then Num (rest ! (5 * k' + 1))
        else js_add (if k' = 0 then Num ?c
                     else startCharacter (range (decode_from legend ?l ?c rest ! (k' - 1))))
               (Num (rest ! (5 * k' + 1))))"
      by (rule "1.IH" [OF refl refl k'])
    have prev: "(if k' = 0 then Num ?c
                 else startCharacter (range (decode_from legend ?l ?c rest ! (k' - 1))))
         = startCharacter (range (decode_from legend line char ?toks ! k'))"
      by (cases k') (simp_all add: unfold del: decode_from.simps)
    have cur: "decode_from legend line char ?toks ! Suc k' = decode_from legend ?l ?c rest ! k'"
      by (simp add: unfold del: decode_from.simps)
    show ?thesis
      unfolding Suc cur t0 t1 ih prev by simp
  qed
qed simp_all

lemma decode_from_hlGroup:
  "k < length toks div 5 \<Longrightarrow>
   hlGroup (decode_from legend l c toks ! k)
     = js_concat HLGROUP_PREFIX (tokenTypes_at legend (Num (toks ! (5 * k + 3))))
   \<and> opts (decode_from legend l c toks ! k)
     = item_opts (tokenTypes_at legend (Num (toks ! (5 * k + 3))))"
proof (induction legend l c toks arbitrary: k rule: decode_from.induct)
  case (1 legend line char dl dc len ty m rest)
  show ?case
  proof (cases k)
    case 0
    then show ?thesis by (simp add: Let_def)
  next
    case (Suc k')
    then have k': "k' < length rest div 5" using "1.prems" by simp
    have t3: "(dl # dc # len # ty # m # rest) ! (5 * Suc k' + 3) = rest ! (5 * k' + 3)"
      by (rule nth_quintuple_tail)
    show ?thesis
      using "1.IH" [OF refl refl k'] unfolding Suc t3 by (simp add: Let_def)
  qed
qed simp_all

lemma start_le_trans_Num:
  "start_le (Num l, Num c) (Num l', Num c') \<Longrightarrow> start_le (Num l', Num c') q \<Longrightarrow>
   start_le (Num l, Num c) q"
  by (cases q; cases "fst q"; cases "snd q") (auto simp: start_le_def)

lemma decode_from_lower_bound:
  "it \<in> set (decode_from legend l c toks) \<Longrightarrow> start_le (Num l, Num c) (item_start it)"
proof (induction legend l c toks rule: decode_from.induct)
  case (1 legend line char dl dc len ty m rest)
  let ?l = "line + dl"
  let ?c = "if dl = 0 then char + dc else dc"
  have step: "start_le (Num line, Num char) (Num ?l, Num ?c)"
    by (simp add: start_le_def)
  from "1.prems" consider
      "item_start it = (Num ?l, Num ?c)" | "it \<in> set (decode_from legend ?l ?c rest)"
    by (auto simp: Let_def item_start_def)
  then show ?case
  proof cases
    case 1
    then show ?thesis using step by simp
  next
    case 2
    then have "start_le (Num ?l, Num ?c) (item_start it)"
      by (rule "1.IH" [OF refl refl])
    with step show ?thesis by (rule start_le_trans_Num)
  qed
qed simp_all

lemma decode_from_sorted:
  "sorted_wrt start_le (map item_start (decode_from legend l c toks))"
proof (induction legend l c toks rule: decode_from.induct)
  case (1 legend line char dl dc len ty m rest)
  define l' where "l' = line + dl"
  define c' where "c' = (if dl = 0 then char + dc else dc)"
  define item where "item = \<lparr>hlGroup = js_concat HLGROUP_PREFIX (tokenTypes_at legend (Num ty)),
          range = \<lparr>startLine = Num l', startCharacter = Num c',
                    endLine = Num l', endCharacter = Num (c' + len)\<rparr>,
          opts = item_opts (tokenTypes_at legend (Num ty))\<rparr>"
  have unfold: "decode_from legend line char (dl # dc # len # ty # m # rest)
      = item # decode_from legend l' c' rest"
    by (simp add: Let_def l'_def c'_def item_def)
  have hd: "item_start item = (Num l', Num c')"
    by (simp add: item_start_def item_def)
  have "\<forall>it \<in> set (decode_from legend l' c' rest). start_le (Num l', Num c') (item_start it)"
    using decode_from_lower_bound by blast
  moreover have "sorted_wrt start_le (map item_start (decode_from legend l' c' rest))"
    unfolding l'_def c'_def by (rule "1.IH" [OF refl refl])
  ultimately show ?case
    unfolding unfold by (simp add: hd)
qed simp_all

text \<open>
  C2: for every flat array whose length is a multiple of 5, the items that decoding
  yields are one per quintuple; the start line of item \<open>k\<close> is the sum of the
  \<open>deltaLine\<close> values of the quintuples 0 to \<open>k\<close>; its start character is
  \<open>deltaStartChar\<close> when \<open>deltaLine > 0\<close>, and otherwise \<open>deltaStartChar\<close> added to the
  start character of the item before it (to 0 for the first item); and the items are
  non-decreasing in (start line, start character). Decoding yields items exactly when
  every range lies within what \<open>Range.create\<close> accepts, and throws otherwise.
\<close>

theorem decode_positions_cumulative:
  assumes "length toks mod 5 = 0"
  shows "((\<exists>items. decode legend toks = Inr items) \<longleftrightarrow> ranges_fit 0 0 toks)
     \<and> (\<forall>items. decode legend toks = Inr items \<longrightarrow>
          length items = length toks div 5
          \<and> (\<forall>k < length toks div 5.
               startLine (range (items ! k)) = Num (\<Sum>j\<le>k. toks ! (5 * j))
               \<and> startCharacter (range (items ! k)) =
                   (if 0 < toks ! (5 * k) then Num (toks ! (5 * k + 1))
                    else js_add (if k = 0 then Num 0
                                 else startCharacter (range (items ! (k - 1))))
                           (Num (toks ! (5 * k + 1)))))
          \<and> sorted_wrt start_le (map item_start items))"
proof -
  have eq: "decode legend toks =
      (if ranges_fit 0 0 toks then Inr (decode_from legend 0 0 toks) else Inl RangeCreateError)"
    using assms by (rule decode_is_decode_from)
  have returns: "(\<exists>items. decode legend toks = Inr items) \<longleftrightarrow> ranges_fit 0 0 toks"
    by (simp add: eq)
  have items: "items = decode_from legend 0 0 toks" if "decode legend toks = Inr items" for items
    using that by (simp add: eq split: if_splits)
  have "length (decode_from legend 0 0 toks) = length toks div 5"
    by (rule length_decode_from)
  moreover have "startLine (range (decode_from legend 0 0 toks ! k)) = Num (\<Sum>j\<le>k. toks ! (5 * j))"
    if "k < length toks div 5" for k
    using decode_from_startLine [OF that, of legend 0 0] by simp
  moreover have "startCharacter (range (decode_from legend 0 0 toks ! k)) =
              (if 0 < toks ! (5 * k) then Num (toks ! (5 * k + 1))
               else js_add (if k = 0 then Num 0
                            else startCharacter (range (decode_from legend 0 0 toks ! (k - 1))))
                      (Num (toks ! (5 * k + 1))))"
    if "k < length toks div 5" for k
    using that by (rule decode_from_startCharacter)
  moreover have "sorted_wrt start_le (map item_start (decode_from legend 0 0 toks))"
    by (rule decode_from_sorted)
  ultimately show ?thesis using returns items by blast
qed

text \<open>
  Three tokens, the third two lines further down: the start positions are (0,0), (0,4)
  and (2,1).
\<close>

theorem decode_positions_cumulative_witness:
  "length [0, 0, 3, 0, 0, 0, 4, 2, 1, 0, 2, 1, 4, 0, 0 :: nat] mod 5 = 0
   \<and> (\<exists>items.
        decode \<lparr>tokenTypes = [''variable'', ''function''], tokenModifiers = []\<rparr>
          [0, 0, 3, 0, 0, 0, 4, 2, 1, 0, 2, 1, 4, 0, 0] = Inr items
        \<and> map item_start items = [(Num 0, Num 0), (Num 0, Num 4), (Num 2, Num 1)]
        \<and> sorted_wrt start_le (map item_start items))"
proof -
  let ?legend = "\<lparr>tokenTypes = [''variable'', ''function''], tokenModifiers = []\<rparr>"
  let ?toks = "[0, 0, 3, 0, 0, 0, 4, 2, 1, 0, 2, 1, 4, 0, 0 :: nat]"
  have h: "length ?toks mod 5 = 0"
    by simp
  have fit: "ranges_fit 0 0 ?toks"
    by (simp add: uinteger_MAX_VALUE_def)
  have d: "decode ?legend ?toks = Inr (decode_from ?legend 0 0 ?toks)"
    using fit by (subst decode_is_decode_from) simp_all
  have pos: "map item_start (decode_from ?legend 0 0 ?toks)
       = [(Num 0, Num 0), (Num 0, Num 4), (Num 2, Num 1)]"
    by (simp add: item_start_def Let_def)
  have s: "sorted_wrt start_le (map item_start (decode_from ?legend 0 0 ?toks))"
    using conjunct2 [OF decode_positions_cumulative [OF h, of ?legend], THEN spec, THEN mp, OF d]
    by (elim conjE)
  show ?thesis
  proof (intro conjI exI)
    show "length ?toks mod 5 = 0" by (rule h)
    show "decode ?legend ?toks = Inr (decode_from ?legend 0 0 ?toks)" by (rule d)
    show "map item_start (decode_from ?legend 0 0 ?toks)
       = [(Num 0, Num 0), (Num 0, Num 4), (Num 2, Num 1)]" by (rule pos)
    show "sorted_wrt start_le (map item_start (decode_from ?legend 0 0 ?toks))" by (rule s)
  qed
qed

subsection \<open>Modifier bitsets\<close>

lemma highlights_loop_ignores_modifiers:
  "highlights_loop (map (\<lambda>r. r\<lparr>rh_tokenModifiers := []\<rparr>) rs) l c res = highlights_loop rs l c res"
  by (induction rs arbitrary: l c res) (simp_all add: Let_def split: sum.splits)

lemma js_index_same_but_modifiers:
  assumes "same_but_modifiers xs ys" and "i mod 5 \<noteq> 4"
  shows "js_index xs i = js_index ys i"
  using assms by (simp add: same_but_modifiers_def js_index_def)

lemma relative_at_same_but_modifiers:
  assumes "same_but_modifiers xs ys" and "i mod 5 = 0"
  shows "(relative_at legend xs i)\<lparr>rh_tokenModifiers := []\<rparr>
       = (relative_at legend ys i)\<lparr>rh_tokenModifiers := []\<rparr>"
proof -
  have m: "i mod 5 \<noteq> 4" "(i + 1) mod 5 \<noteq> 4" "(i + 2) mod 5 \<noteq> 4" "(i + 3) mod 5 \<noteq> 4"
    using assms(2) by presburger+
  have "js_index xs i = js_index ys i" "js_index xs (i + 1) = js_index ys (i + 1)"
    "js_index xs (i + 2) = js_index ys (i + 2)" "js_index xs (i + 3) = js_index ys (i + 3)"
    by (rule js_index_same_but_modifiers [OF assms(1)], rule m)+
  then show ?thesis by (simp add: relative_at_def)
qed

lemma relatives_loop_same_but_modifiers:
  "same_but_modifiers xs ys \<Longrightarrow> i mod 5 = 0 \<Longrightarrow>
     map (\<lambda>r. r\<lparr>rh_tokenModifiers := []\<rparr>) acc = map (\<lambda>r. r\<lparr>rh_tokenModifiers := []\<rparr>) acc' \<Longrightarrow>
     map (\<lambda>r. r\<lparr>rh_tokenModifiers := []\<rparr>) (relatives_loop legend xs i acc)
       = map (\<lambda>r. r\<lparr>rh_tokenModifiers := []\<rparr>) (relatives_loop legend ys i acc')"
proof (induction legend xs i acc arbitrary: acc' rule: relatives_loop.induct)
  case (1 legend toks i relatives)
  have len: "length toks = length ys"
    using "1.prems"(1) by (simp add: same_but_modifiers_def)
  show ?case
  proof (cases "i < length toks")
    case True
    have next5: "(i + 5) mod 5 = 0" using "1.prems"(2) by presburger
    have accs: "map (\<lambda>r. r\<lparr>rh_tokenModifiers := []\<rparr>) (relatives @ [relative_at legend toks i])
              = map (\<lambda>r. r\<lparr>rh_tokenModifiers := []\<rparr>) (acc' @ [relative_at legend ys i])"
      using "1.prems"(3) relative_at_same_but_modifiers [OF "1.prems"(1) "1.prems"(2), of legend]
      by simp
    have "map (\<lambda>r. r\<lparr>rh_tokenModifiers := []\<rparr>)
            (relatives_loop legend toks (i + 5) (relatives @ [relative_at legend toks i]))
        = map (\<lambda>r. r\<lparr>rh_tokenModifiers := []\<rparr>)
            (relatives_loop legend ys (i + 5) (acc' @ [relative_at legend ys i]))"
      by (rule "1.IH" [OF True "1.prems"(1) next5 accs])
    then show ?thesis
      using True len
      by (subst relatives_loop.simps, subst (2) relatives_loop.simps) simp
  next
    case False
    then show ?thesis
      using len "1.prems"(3)
      by (subst relatives_loop.simps, subst (2) relatives_loop.simps) simp
  qed
qed

text \<open>
  C9: the emitted highlight items do not depend on the modifier bitsets: two flat arrays
  that differ only in the fifth component of their quintuples decode to the same sequence
  of items (same groups, ranges and options), although the relative highlights carry the
  modifier names resolved from the bitsets.
\<close>

theorem decode_independent_of_modifiers:
  assumes "same_but_modifiers xs ys"
  shows "decode legend xs = decode legend ys"
proof -
  have "map (\<lambda>r. r\<lparr>rh_tokenModifiers := []\<rparr>) (relatives_loop legend xs 0 [])
      = map (\<lambda>r. r\<lparr>rh_tokenModifiers := []\<rparr>) (relatives_loop legend ys 0 [])"
    using assms by (rule relatives_loop_same_but_modifiers) simp_all
  then have "highlights_loop (map (\<lambda>r. r\<lparr>rh_tokenModifiers := []\<rparr>) (relatives_loop legend xs 0 []))
               (Num 0) (Num 0) []
           = highlights_loop (map (\<lambda>r. r\<lparr>rh_tokenModifiers := []\<rparr>) (relatives_loop legend ys 0 []))
               (Num 0) (Num 0) []"
    by simp
  then show ?thesis
    by (simp only: decode_def highlights_loop_ignores_modifiers)
qed

text \<open>
  With the modifiers declaration and static, the bitsets 1, 0 and 2, 3 give different
  relative highlights and the same items.
\<close>

theorem decode_independent_of_modifiers_witness:
  "same_but_modifiers [0, 0, 3, 0, 1, 1, 2, 4, 1, 0] [0, 0, 3, 0, 2, 1, 2, 4, 1, 3]
   \<and> relatives_loop \<lparr>tokenTypes = [''variable'', ''function''],
                      tokenModifiers = [''declaration'', ''static'']\<rparr>
        [0, 0, 3, 0, 1, 1, 2, 4, 1, 0] 0 []
     \<noteq> relatives_loop \<lparr>tokenTypes = [''variable'', ''function''],
                      tokenModifiers = [''declaration'', ''static'']\<rparr>
        [0, 0, 3, 0, 2, 1, 2, 4, 1, 3] 0 []
   \<and> decode \<lparr>tokenTypes = [''variable'', ''function''],
              tokenModifiers = [''declaration'', ''static'']\<rparr> [0, 0, 3, 0, 1, 1, 2, 4, 1, 0]
     = decode \<lparr>tokenTypes = [''variable'', ''function''],
              tokenModifiers = [''declaration'', ''static'']\<rparr> [0, 0, 3, 0, 2, 1, 2, 4, 1, 3]"
proof -
  have "i < 10 \<Longrightarrow> i mod 5 \<noteq> 4 \<Longrightarrow>
        [0, 0, 3, 0, 1, 1, 2, 4, 1, 0 :: nat] ! i = [0, 0, 3, 0, 2, 1, 2, 4, 1, 3] ! i" for i :: nat
  proof -
    assume "i < 10" "i mod 5 \<noteq> 4"
    then have "i = 0 \<or> i = 1 \<or> i = 2 \<or> i = 3 \<or> i = 5 \<or> i = 6 \<or> i = 7 \<or> i = 8"
      by presburger
    then show ?thesis by (elim disjE) simp_all
  qed
  then have h: "same_but_modifiers [0, 0, 3, 0, 1, 1, 2, 4, 1, 0] [0, 0, 3, 0, 2, 1, 2, 4, 1, 3]"
    by (simp add: same_but_modifiers_def)
  have d: "relatives_loop \<lparr>tokenTypes = [''variable'', ''function''],
                      tokenModifiers = [''declaration'', ''static'']\<rparr>
        [0, 0, 3, 0, 1, 1, 2, 4, 1, 0] 0 []
     \<noteq> relatives_loop \<lparr>tokenTypes = [''variable'', ''function''],
                      tokenModifiers = [''declaration'', ''static'']\<rparr>
        [0, 0, 3, 0, 2, 1, 2, 4, 1, 3] 0 []"
    by (simp add: relatives_loop_quintuple relative_at_def js_index_def modifiers_filter_def
        upt_rec)
  show ?thesis
    using h d decode_independent_of_modifiers [OF h] by blast
qed


subsection \<open>Type indices outside the legend\<close>

text \<open>
  A full result whose only quintuple has type index 5, for a legend of two types, on a
  buffer that shows one function highlight: no error is raised; the item is emitted with
  the group \<open>CocSem_undefined\<close>, replaces the snapshot and is handed to the diff
  collaborator.
\<close>

theorem out_of_range_type_is_decoded_counterexample:
  "doHighlight_response
     \<lparr>p_token = 0,
      p_legend = Some \<lparr>tokenTypes = [''variable'', ''function''], tokenModifiers = []\<rparr>,
      p_previousResult = None, p_version = 2\<rparr>
     \<lparr>tokenSource = Some 0, cancelledTokens = {}, sourcesCreated = 1,
      priv_highlights = Some [\<lparr>hlGroup = ''CocSem_function'',
         range = \<lparr>startLine = Num 1, startCharacter = Num 0, endLine = Num 1, endCharacter = Num 2\<rparr>,
         opts = \<lparr>combine = False, end_incl = None, start_incl = None\<rparr>\<rparr>],
      previousResults = Some \<lparr>version = 1, resultId = None, tokens = Some 0\<rparr>,
      debouncePending = False,
      arrays = (\<lambda>a. [])(0 := [1, 0, 2, 1, 0]), arraysCreated = 1\<rparr>
     (Some (SemanticTokens None [0, 0, 3, 5, 0]))
   = (\<lparr>tokenSource = Some 0, cancelledTokens = {}, sourcesCreated = 1,
      priv_highlights = Some [\<lparr>hlGroup = ''CocSem_undefined'',
         range = \<lparr>startLine = Num 0, startCharacter = Num 0, endLine = Num 0, endCharacter = Num 3\<rparr>,
         opts = \<lparr>combine = False, end_incl = None, start_incl = None\<rparr>\<rparr>],
      previousResults = Some \<lparr>version = 2, resultId = None, tokens = Some 1\<rparr>,
      debouncePending = False,
      arrays = (\<lambda>a. [])(0 := [1, 0, 2, 1, 0], 1 := [0, 0, 3, 5, 0]), arraysCreated = 2\<rparr>,
      [DiffHighlights ''semanticTokens'' [\<lparr>hlGroup = ''CocSem_undefined'',
         range = \<lparr>startLine = Num 0, startCharacter = Num 0, endLine = Num 0, endCharacter = Num 3\<rparr>,
         opts = \<lparr>combine = False, end_incl = None, start_incl = None\<rparr>\<rparr>]],
      AwaitDiff 0)"
proof -
  have d: "decode \<lparr>tokenTypes = [''variable'', ''function''], tokenModifiers = []\<rparr> [0, 0, 3, 5, 0]
      = Inr [\<lparr>hlGroup = ''CocSem_undefined'',
         range = \<lparr>startLine = Num 0, startCharacter = Num 0, endLine = Num 0, endCharacter = Num 3\<rparr>,
         opts = \<lparr>combine = False, end_incl = None, start_incl = None\<rparr>\<rparr>]"
    by (simp add: decode_is_decode_from uinteger_MAX_VALUE_def Let_def HLGROUP_PREFIX_def
        item_opts_def)
  show ?thesis
    by (simp add: doHighlight_response_def requestHighlights_response_def response_tokens_def
        result_resultId_def requestHighlights_decode_def d Let_def NAMESPACE_def)
qed

text \<open>
  C4, as the code has it: a type index beyond the legend's token types raises no decode
  error. For a full or a delta response whose token array consists of whole quintuples
  with ranges that \<open>Range.create\<close> accepts, the quintuple is emitted as an item with the
  group \<open>CocSem_undefined\<close> and no inclusivity flags, no quintuple is dropped, and the
  response is processed like any other: the result cache and the highlights snapshot are
  replaced and the items are handed to the diff collaborator.
\<close>

theorem out_of_range_type_is_decoded:
  assumes "p_legend p = Some legend" and "p_token p \<notin> cancelledTokens b"
    and "(r = SemanticTokens rid toks \<and> a = arraysCreated b
          \<and> b' = b\<lparr>arrays := (arrays b)(a := toks), arraysCreated := a + 1\<rparr>)
       \<or> (\<exists>edits prev. r = SemanticTokensDelta rid edits
            \<and> p_previousResult p = Some prev \<and> tokens prev = Some a
            \<and> toks = edits_forEach edits (arrays b a)
            \<and> b' = b\<lparr>arrays := (arrays b)(a := toks)\<rparr>)"
    and "length toks mod 5 = 0" and "ranges_fit 0 0 toks"
    and "k < length toks div 5" and "length (tokenTypes legend) \<le> toks ! (5 * k + 3)"
  shows "\<exists>items. decode legend toks = Inr items
     \<and> doHighlight_response p b (Some r)
       = (b'\<lparr>previousResults :=
                Some \<lparr>version = p_version p, resultId = rid, tokens = Some a\<rparr>,
              priv_highlights := Some items\<rparr>,
          [DiffHighlights NAMESPACE items], AwaitDiff (p_token p))
     \<and> length items = length toks div 5
     \<and> hlGroup (items ! k) = ''CocSem_undefined''
     \<and> opts (items ! k) = \<lparr>combine = False, end_incl = None, start_incl = None\<rparr>"
proof -
  define items where "items = decode_from legend 0 0 toks"
  have d: "decode legend toks = Inr items"
    using assms(4,5) by (simp add: decode_is_decode_from items_def)
  have ty: "tokenTypes_at legend (Num (toks ! (5 * k + 3))) = None"
    using assms(7) by simp
  have toks: "response_tokens p b r = Inr (b', Some a)" and rid: "result_resultId r = rid"
    and arr: "arrays b' a = toks"
    using assms(3) by (auto simp: response_tokens_def result_resultId_def Let_def)
  have "requestHighlights_decode p b' rid (Some a)
      = (b'\<lparr>previousResults :=
                Some \<lparr>version = p_version p, resultId = rid, tokens = Some a\<rparr>,
              priv_highlights := Some items\<rparr>, Inr (Some items))"
    using assms(1) d arr by (simp add: requestHighlights_decode_def Let_def)
  then have resp: "doHighlight_response p b (Some r)
       = (b'\<lparr>previousResults :=
                Some \<lparr>version = p_version p, resultId = rid, tokens = Some a\<rparr>,
              priv_highlights := Some items\<rparr>,
          [DiffHighlights NAMESPACE items], AwaitDiff (p_token p))"
    using assms(2) toks rid
    by (simp add: doHighlight_response_def requestHighlights_response_def)
  have len: "length items = length toks div 5"
    unfolding items_def by (rule length_decode_from)
  have "hlGroup (items ! k) = js_concat HLGROUP_PREFIX None"
    and "opts (items ! k) = item_opts None"
    using decode_from_hlGroup [OF assms(6), of legend 0 0] unfolding items_def ty by simp_all
  then have grp: "hlGroup (items ! k) = ''CocSem_undefined''"
    and op: "opts (items ! k) = \<lparr>combine = False, end_incl = None, start_incl = None\<rparr>"
    by (simp_all add: HLGROUP_PREFIX_def item_opts_def)
  show ?thesis
    using d resp len grp op by (intro exI [of _ items] conjI)
qed


text \<open>
  A delta that overwrites the type index of the cached quintuple with 5: the array at
  address 0 is spliced in place and decoded.
\<close>

theorem out_of_range_type_is_decoded_witness:
  "0 \<notin> cancelledTokens
      \<lparr>tokenSource = Some 0, cancelledTokens = {}, sourcesCreated = 1, priv_highlights = Some [],
       previousResults = Some \<lparr>version = 1, resultId = Some ''r1'', tokens = Some 0\<rparr>,
       debouncePending = False, arrays = (\<lambda>a. [])(0 := [0, 0, 3, 0, 0]), arraysCreated = 1\<rparr>
   \<and> edits_forEach [\<lparr>start = 3, deleteCount = 1, data = [5]\<rparr>] [0, 0, 3, 0, 0] = [0, 0, 3, 5, 0]
   \<and> ranges_fit 0 0 [0, 0, 3, 5, 0]
   \<and> (\<exists>items.
        decode \<lparr>tokenTypes = [''variable'', ''function''], tokenModifiers = []\<rparr> [0, 0, 3, 5, 0]
          = Inr items
        \<and> doHighlight_response
            \<lparr>p_token = 0,
             p_legend = Some \<lparr>tokenTypes = [''variable'', ''function''], tokenModifiers = []\<rparr>,
             p_previousResult = Some \<lparr>version = 1, resultId = Some ''r1'', tokens = Some 0\<rparr>,
             p_version = 2\<rparr>
            \<lparr>tokenSource = Some 0, cancelledTokens = {}, sourcesCreated = 1,
             priv_highlights = Some [],
             previousResults = Some \<lparr>version = 1, resultId = Some ''r1'', tokens = Some 0\<rparr>,
             debouncePending = False,
             arrays = (\<lambda>a. [])(0 := [0, 0, 3, 0, 0]), arraysCreated = 1\<rparr>
            (Some (SemanticTokensDelta (Some ''r2'') [\<lparr>start = 3, deleteCount = 1, data = [5]\<rparr>]))
          = (\<lparr>tokenSource = Some 0, cancelledTokens = {}, sourcesCreated = 1,
             priv_highlights = Some items,
             previousResults = Some \<lparr>version = 2, resultId = Some ''r2'', tokens = Some 0\<rparr>,
             debouncePending = False,
             arrays = (\<lambda>a. [])(0 := [0, 0, 3, 5, 0]), arraysCreated = 1\<rparr>,
             [DiffHighlights NAMESPACE items], AwaitDiff 0)
        \<and> hlGroup (items ! 0) = ''CocSem_undefined'')"
proof -
  let ?legend = "\<lparr>tokenTypes = [''variable'', ''function''], tokenModifiers = []\<rparr>"
  let ?prev = "\<lparr>version = 1, resultId = Some ''r1'', tokens = Some 0\<rparr>"
  let ?p = "\<lparr>p_token = 0, p_legend = Some ?legend, p_previousResult = Some ?prev,
             p_version = 2\<rparr>"
  let ?b = "\<lparr>tokenSource = Some 0, cancelledTokens = {}, sourcesCreated = 1,
             priv_highlights = Some [], previousResults = Some ?prev,
             debouncePending = False,
             arrays = (\<lambda>a. [])(0 := [0, 0, 3, 0, 0]), arraysCreated = 1\<rparr>"
  let ?edits = "[\<lparr>start = 3, deleteCount = 1, data = [5]\<rparr>]"
  let ?toks = "[0, 0, 3, 5, 0 :: nat]"
  have e: "edits_forEach ?edits [0, 0, 3, 0, 0] = ?toks"
    by (simp add: apply_edit_def js_splice_eq)
  have h1: "p_legend ?p = Some ?legend" by simp
  have h2: "p_token ?p \<notin> cancelledTokens ?b" by simp
  have h3: "(SemanticTokensDelta (Some ''r2'') ?edits = SemanticTokens (Some ''r2'') ?toks
             \<and> 0 = arraysCreated ?b
             \<and> ?b\<lparr>arrays := (arrays ?b)(0 := ?toks)\<rparr>
                 = ?b\<lparr>arrays := (arrays ?b)(0 := ?toks), arraysCreated := 0 + 1\<rparr>)
       \<or> (\<exists>edits prev. SemanticTokensDelta (Some ''r2'') ?edits = SemanticTokensDelta (Some ''r2'') edits
            \<and> p_previousResult ?p = Some prev \<and> tokens prev = Some 0
            \<and> ?toks = edits_forEach edits (arrays ?b 0)
            \<and> ?b\<lparr>arrays := (arrays ?b)(0 := ?toks)\<rparr> = ?b\<lparr>arrays := (arrays ?b)(0 := ?toks)\<rparr>)"
    using e by simp
  have h4: "length ?toks mod 5 = 0" by simp
  have h5: "ranges_fit 0 0 ?toks" by (simp add: uinteger_MAX_VALUE_def)
  have h6: "(0::nat) < length ?toks div 5" by simp
  have h7: "length (tokenTypes ?legend) \<le> ?toks ! (5 * 0 + 3)" by simp
  show ?thesis
    using e h5 out_of_range_type_is_decoded [OF h1 h2 h3 h4 h5 h6 h7]
    apply simp
    apply (elim exE conjE)
    apply (intro exI conjI)
    apply assumption+
    done
qed

subsection \<open>Disabling and disposing\<close>

text \<open>
  A buffer with the request of source 0 in flight and a cached result: after
  \<open>setState(false)\<close> the source is still held and not cancelled and the cache is
  still there; \<open>dispose\<close> calls no collaborator.
\<close>

theorem disable_and_dispose_effects_counterexample:
  "tokenSource (fst (setState False
      \<lparr>tokenSource = Some 0, cancelledTokens = {}, sourcesCreated = 1, priv_highlights = Some [],
       previousResults = Some \<lparr>version = 1, resultId = Some ''r1'', tokens = Some 0\<rparr>,
       debouncePending = True, arrays = (\<lambda>a. []), arraysCreated = 1\<rparr>)) = Some 0
   \<and> 0 \<notin> cancelledTokens (fst (setState False
      \<lparr>tokenSource = Some 0, cancelledTokens = {}, sourcesCreated = 1, priv_highlights = Some [],
       previousResults = Some \<lparr>version = 1, resultId = Some ''r1'', tokens = Some 0\<rparr>,
       debouncePending = True, arrays = (\<lambda>a. []), arraysCreated = 1\<rparr>))
   \<and> previousResults (fst (setState False
      \<lparr>tokenSource = Some 0, cancelledTokens = {}, sourcesCreated = 1, priv_highlights = Some [],
       previousResults = Some \<lparr>version = 1, resultId = Some ''r1'', tokens = Some 0\<rparr>,
       debouncePending = True, arrays = (\<lambda>a. []), arraysCreated = 1\<rparr>))
     = Some \<lparr>version = 1, resultId = Some ''r1'', tokens = Some 0\<rparr>
   \<and> snd (dispose
      \<lparr>tokenSource = Some 0, cancelledTokens = {}, sourcesCreated = 1, priv_highlights = Some [],
       previousResults = Some \<lparr>version = 1, resultId = Some ''r1'', tokens = Some 0\<rparr>,
       debouncePending = True, arrays = (\<lambda>a. []), arraysCreated = 1\<rparr>) = ([])"
  by (simp add: setState_def clearHighlight_def highlight_clear_def dispose_def Let_def)

text \<open>
  C8, as the code has it: \<open>setState(false)\<close> stops the debounce timer and clears the
  rendered highlights through \<open>clearNamespace\<close>; \<open>dispose\<close> stops the debounce timer,
  cancels the request whose source the buffer holds, empties the result cache and sets
  the highlights snapshot to the empty sequence.
\<close>

theorem disable_and_dispose_effects:
  "debouncePending (fst (setState False b)) = False
   \<and> snd (setState False b) = [ClearNamespace NAMESPACE]
   \<and> debouncePending (fst (dispose b)) = False
   \<and> previousResults (fst (dispose b)) = None
   \<and> priv_highlights (fst (dispose b)) = Some []
   \<and> tokenSource (fst (dispose b)) = None
   \<and> (\<forall>t. tokenSource b = Some t \<longrightarrow> t \<in> cancelledTokens (fst (dispose b)))"
  by (simp add: setState_def clearHighlight_def highlight_clear_def dispose_def Let_def
      cancel_fields cancel_cancels)

text \<open>
  Disposing a buffer that holds source 0 cancels it and empties the cache.
\<close>

theorem disable_and_dispose_effects_witness:
  "tokenSource
      \<lparr>tokenSource = Some 0, cancelledTokens = {}, sourcesCreated = 1, priv_highlights = None,
       previousResults = Some \<lparr>version = 1, resultId = Some ''r1'', tokens = Some 0\<rparr>,
       debouncePending = True, arrays = (\<lambda>a. []), arraysCreated = 1\<rparr> = Some 0
   \<and> 0 \<in> cancelledTokens (fst (dispose
      \<lparr>tokenSource = Some 0, cancelledTokens = {}, sourcesCreated = 1, priv_highlights = None,
       previousResults = Some \<lparr>version = 1, resultId = Some ''r1'', tokens = Some 0\<rparr>,
       debouncePending = True, arrays = (\<lambda>a. []), arraysCreated = 1\<rparr>))
   \<and> previousResults (fst (dispose
      \<lparr>tokenSource = Some 0, cancelledTokens = {}, sourcesCreated = 1, priv_highlights = None,
       previousResults = Some \<lparr>version = 1, resultId = Some ''r1'', tokens = Some 0\<rparr>,
       debouncePending = True, arrays = (\<lambda>a. []), arraysCreated = 1\<rparr>)) = None"
  using disable_and_dispose_effects
    [of "\<lparr>tokenSource = Some 0, cancelledTokens = {}, sourcesCreated = 1, priv_highlights = None,
       previousResults = Some \<lparr>version = 1, resultId = Some ''r1'', tokens = Some 0\<rparr>,
       debouncePending = True, arrays = (\<lambda>a. []), arraysCreated = 1\<rparr>"]
  by simp

subsection \<open>The snapshot before the first decode, on a run\<close>

text \<open>
  A request is sent, cancelled by a document change, answered, and the feature is then
  switched off: the getter still yields \<open>undefined\<close>.
\<close>

theorem highlights_undefined_until_first_decode_witness:
  "before_first_decode constructor
     [TimerFires \<lparr>config_enabled = True,
         getDocument = Some \<lparr>attached = True, doc_version = 1,
           getLegend = Some \<lparr>tokenTypes = [''variable''], tokenModifiers = []\<rparr>,
           hasProvider = True, hasSemanticTokensEdits = False\<rparr>\<rparr>,
      OnChange,
      ProviderResponse \<lparr>p_token = 0,
          p_legend = Some \<lparr>tokenTypes = [''variable''], tokenModifiers = []\<rparr>,
          p_previousResult = None, p_version = 1\<rparr>
        (Some (SemanticTokens (Some ''r1'') [0, 0, 3, 0, 0])),
      SetState False]
   \<and> highlights (run constructor
     [TimerFires \<lparr>config_enabled = True,
         getDocument = Some \<lparr>attached = True, doc_version = 1,
           getLegend = Some \<lparr>tokenTypes = [''variable''], tokenModifiers = []\<rparr>,
           hasProvider = True, hasSemanticTokensEdits = False\<rparr>\<rparr>,
      OnChange,
      ProviderResponse \<lparr>p_token = 0,
          p_legend = Some \<lparr>tokenTypes = [''variable''], tokenModifiers = []\<rparr>,
          p_previousResult = None, p_version = 1\<rparr>
        (Some (SemanticTokens (Some ''r1'') [0, 0, 3, 0, 0])),
      SetState False]) = None"
proof -
  let ?evs = "[TimerFires \<lparr>config_enabled = True,
         getDocument = Some \<lparr>attached = True, doc_version = 1,
           getLegend = Some \<lparr>tokenTypes = [''variable''], tokenModifiers = []\<rparr>,
           hasProvider = True, hasSemanticTokensEdits = False\<rparr>\<rparr>,
      OnChange,
      ProviderResponse \<lparr>p_token = 0,
          p_legend = Some \<lparr>tokenTypes = [''variable''], tokenModifiers = []\<rparr>,
          p_previousResult = None, p_version = 1\<rparr>
        (Some (SemanticTokens (Some ''r1'') [0, 0, 3, 0, 0])),
      SetState False]"
  have h: "before_first_decode constructor ?evs"
    by (simp add: constructor_def highlight_def timer_fires_def doHighlight_begin_def enabled_def
        cancel_def requestHighlights_request_def js_truthy_def chain_resultId_def onChange_def
        requestHighlights_response_def doHighlight_response_def Let_def)
  show ?thesis
    using h highlights_undefined_until_first_decode [of ?evs] by blast
qed

end
